theory Spec2Isabelle
  imports Complex_Main "HOL-Library.Sublist" "HOL-Library.Char_ord" "HOL-Library.List_Lexorder"
    "HOL-Library.Multiset"
begin

section \<open>Strings\<close>

text \<open>
  Python strings are modelled as \<open>string\<close> (lists of 8-bit characters), so the
  development covers ASCII text. \<open>str.lower\<close> maps the letters \<open>A\<close> to \<open>Z\<close> to
  \<open>a\<close> to \<open>z\<close> and leaves every other character alone; \<open>needle in haystack\<close> on
  strings is containment as a contiguous block, which is \<^const>\<open>sublist\<close>.
\<close>

definition lower_char :: "char \<Rightarrow> char" where
  "lower_char c =
     (if 65 \<le> (of_char c :: nat) \<and> (of_char c :: nat) \<le> 90
      then char_of ((of_char c :: nat) + 32) else c)"

definition lower :: "string \<Rightarrow> string" where
  "lower s = map lower_char s"

definition nl :: string where
  "nl = [CHR 0x0A]"

text \<open>How an f-string formats an optional string: \<open>None\<close> prints as \<open>None\<close>.\<close>

definition fmt :: "string option \<Rightarrow> string" where
  "fmt v = (case v of None \<Rightarrow> ''None'' | Some s \<Rightarrow> s)"

section \<open>The taxonomy store (agent.py)\<close>

text \<open>
  One record of \<open>failure_modes.json\<close> is a \<open>Dict[str, Any]\<close> that is only ever read
  with \<open>.get\<close>: every field may be missing, which is \<open>None\<close> here.
\<close>

record mode_data =
  category :: "string option"
  short_description :: "string option"
  description :: "string option"
  example_scenarios :: "string list option"
  phd_level_analysis :: "string option"
  tactical_solutions :: "string list option"
  structural_solutions :: "string list option"

text \<open>\<open>{}\<close>, the default of \<open>failure_modes.get(mode_name, {})\<close>.\<close>

definition empty_mode :: mode_data where
  "empty_mode = \<lparr>category = None, short_description = None, description = None,
     example_scenarios = None, phd_level_analysis = None,
     tactical_solutions = None, structural_solutions = None\<rparr>"

text \<open>
  A Python \<open>dict\<close> keeps its keys in insertion order, and the router scans them in that
  order: a dict is an association list. A dict has no key twice; theorems that need
  this assume \<open>distinct (keys d)\<close>.
\<close>

type_synonym ('k, 'v) dict = "('k \<times> 'v) list"

definition keys :: "('k, 'v) dict \<Rightarrow> 'k list" where
  "keys d = map fst d"

definition dict_get :: "('k, 'v) dict \<Rightarrow> 'k \<Rightarrow> 'v \<Rightarrow> 'v" where
  "dict_get d k dflt = (case map_of d k of None \<Rightarrow> dflt | Some v \<Rightarrow> v)"

text \<open>The keys of the category index are what \<open>mode_data.get('category')\<close> returns.\<close>

record educator =
  failure_modes :: "(string, mode_data) dict"
  categories :: "(string option, string list) dict"

text \<open>
  One round of the loop of \<open>_organize_categories\<close>: create the bucket on first sight,
  then append the identifier to the bucket of its category.
\<close>

definition organize_step ::
  "(string option, string list) dict \<Rightarrow> string \<times> mode_data \<Rightarrow> (string option, string list) dict"
where
  "organize_step cats item =
     (let mode_name = fst item;
          cat = category (snd item);
          cats1 = (if cat \<notin> set (keys cats) then cats @ [(cat, [])] else cats)
      in map (\<lambda>(k, v). if k = cat then (k, v @ [mode_name]) else (k, v)) cats1)"

definition organize_categories ::
  "(string, mode_data) dict \<Rightarrow> (string option, string list) dict" where
  "organize_categories fm = foldl organize_step [] fm"

text \<open>\<open>__init__\<close>, from the failure modes that \<open>_load_failure_modes\<close> returned.\<close>

definition init_educator :: "(string, mode_data) dict \<Rightarrow> educator" where
  "init_educator fm = \<lparr>failure_modes = fm, categories = organize_categories fm\<rparr>"

definition get_all_categories :: "educator \<Rightarrow> string option list" where
  "get_all_categories ag = keys (categories ag)"

definition get_failure_modes_in_category :: "educator \<Rightarrow> string option \<Rightarrow> string list" where
  "get_failure_modes_in_category ag cat = dict_get (categories ag) cat []"

definition get_failure_mode_info :: "educator \<Rightarrow> string \<Rightarrow> mode_data" where
  "get_failure_mode_info ag mode_name = dict_get (failure_modes ag) mode_name empty_mode"


section \<open>The query router (agent.py)\<close>

text \<open>
  \<open>random.choice(seq)\<close> returns \<open>seq[i]\<close> for an index \<open>i\<close> below \<open>len(seq)\<close> drawn by
  the generator. The draw is an input of the model: \<open>r\<close> is the number the generator
  delivers for this call.
\<close>

definition choice :: "nat \<Rightarrow> 'a list \<Rightarrow> 'a" where
  "choice r seq = seq ! (r mod length seq)"

definition demonstrate_failure_mode :: "educator \<Rightarrow> nat \<Rightarrow> string \<Rightarrow> string" where
  "demonstrate_failure_mode ag r mode_name =
     (let mode_info = get_failure_mode_info ag mode_name;
          scenarios = (case example_scenarios mode_info of None \<Rightarrow> [] | Some xs \<Rightarrow> xs)
      in if scenarios = []
         then ''No demonstration scenarios available for '' @ mode_name @ ''.''
         else choice r scenarios)"

definition analyze_failure_mode :: "educator \<Rightarrow> string \<Rightarrow> string" where
  "analyze_failure_mode ag mode_name =
     (case phd_level_analysis (get_failure_mode_info ag mode_name) of
        None \<Rightarrow> ''No analysis available for '' @ mode_name @ ''.''
      | Some a \<Rightarrow> a)"

record solutions =
  tactical :: "string list"
  structural :: "string list"

definition get_solutions :: "educator \<Rightarrow> string \<Rightarrow> solutions" where
  "get_solutions ag mode_name =
     (let mode_info = get_failure_mode_info ag mode_name
      in \<lparr>tactical = (case tactical_solutions mode_info of None \<Rightarrow> [] | Some xs \<Rightarrow> xs),
          structural = (case structural_solutions mode_info of None \<Rightarrow> [] | Some xs \<Rightarrow> xs)\<rparr>)"

definition category_descriptions :: "(string option, string) dict" where
  "category_descriptions =
    [(Some ''Communication Failures'',
      ''Communication failures occur when information exchange between multiple LLM agents is impaired. These failures can result from information withholding, miscommunication, verbosity issues, incomplete exchanges, or signal distortion. They represent fundamental challenges in the transmission and reception of information between autonomous agents.''),
     (Some ''Alignment Failures'',
      ''Alignment failures emerge when the goals, values, or world models of multiple agents are not properly synchronized. These include inter-agent misalignment, divergent objectives, conflicting prioritization, inconsistent world models, and value misalignment. Such failures represent deeper architectural and design challenges in multi-agent systems.''),
     (Some ''Decision/Coordination Failures'',
      ''Decision and coordination failures manifest when multiple agents cannot effectively reach consensus or coordinate their actions. These include decision paralysis, fragmented consensus, resource misallocation, and coordination overhead. These failures reveal limitations in the collective decision-making capabilities of multi-agent systems.'')]"

definition explain_category :: "string option \<Rightarrow> string" where
  "explain_category cat =
     dict_get category_descriptions cat (''No description available for '' @ fmt cat @ ''.'')"

text \<open>The loops that append one bullet per item to the response.\<close>

definition solution_bullet :: "string \<Rightarrow> string \<Rightarrow> string" where
  "solution_bullet response solution = response @ ''- '' @ solution @ nl"

definition mode_bullet :: "educator \<Rightarrow> string \<Rightarrow> string \<Rightarrow> string" where
  "mode_bullet ag response mode =
     (let mode_info = get_failure_mode_info ag mode
      in response @ ''- **'' @ mode @ ''**: '' @
         (case short_description mode_info of None \<Rightarrow> ''No description available.'' | Some d \<Rightarrow> d)
         @ nl)"

definition generate_failure_mode_response :: "educator \<Rightarrow> nat \<Rightarrow> string \<Rightarrow> string" where
  "generate_failure_mode_response ag r mode_name =
     (let mode_info = get_failure_mode_info ag mode_name;
          demonstration = demonstrate_failure_mode ag r mode_name;
          analysis = analyze_failure_mode ag mode_name;
          sols = get_solutions ag mode_name;
          response = ''# '' @ mode_name @ '' (Category: '' @ fmt (category mode_info) @ '')'';
          response = response @ nl @ nl @ ''## Definition'' @ nl @
            (case description mode_info of None \<Rightarrow> ''No description available.'' | Some d \<Rightarrow> d);
          response = response @ nl @ nl @ ''## Demonstration'' @ nl @ demonstration;
          response = response @ nl @ nl @ ''## PhD-Level Analysis'' @ nl @ analysis;
          response = response @ nl @ nl @ ''## Solutions'' @ nl;
          response = response @ nl @ ''### Tactical Solutions'' @ nl;
          response = foldl solution_bullet response (tactical sols);
          response = response @ nl @ ''### Structural Solutions'' @ nl;
          response = foldl solution_bullet response (structural sols)
      in response)"

definition generate_category_response :: "educator \<Rightarrow> string option \<Rightarrow> string" where
  "generate_category_response ag cat =
     (let explanation = explain_category cat;
          modes = get_failure_modes_in_category ag cat;
          response = ''# '' @ fmt cat @ nl @ nl @ explanation @ nl @ nl @
            ''## Failure Modes in this Category:'' @ nl
      in foldl (mode_bullet ag) response modes)"

definition generate_all_failure_modes_response :: "educator \<Rightarrow> string" where
  "generate_all_failure_modes_response ag =
     foldl (\<lambda>response (cat, modes).
              foldl (mode_bullet ag) (response @ ''## '' @ fmt cat @ nl) modes @ nl)
       (''# All Failure Modes'' @ nl @ nl) (categories ag)"

definition generate_all_categories_response :: "educator \<Rightarrow> string" where
  "generate_all_categories_response ag =
     foldl (\<lambda>response cat. response @ ''## '' @ fmt cat @ nl @ explain_category cat @ nl @ nl)
       (''# All Failure Mode Categories'' @ nl @ nl) (keys (categories ag))"

definition generate_help_response :: string where
  "generate_help_response =
     ''# Multi-Agent Failure Educator Help'' @ nl @ nl @
     ''I can help you learn about why multi-agent LLM systems fail. Here are some things you can ask me:'' @ nl @ nl @
     ''- Ask about a specific failure mode (e.g., '' @ [CHR 0x27] @ ''Show me an example of information withholding'' @ [CHR 0x27] @ '')'' @ nl @
     ''- Request explanation of a failure category (e.g., '' @ [CHR 0x27] @ ''Explain inter-agent misalignment'' @ [CHR 0x27] @ '')'' @ nl @
     ''- Ask for solutions to a particular failure mode'' @ nl @
     ''- Request a list of all failure modes or categories'' @ nl"

text \<open>
  The only operation of \<open>process_user_request\<close> that can raise: \<open>category.lower()\<close>
  on a key of the category index that is \<open>None\<close>.
\<close>

datatype error = AttributeError

text \<open>The first loop: the failure-mode identifiers in store order, first match returns.\<close>

fun scan_modes :: "educator \<Rightarrow> nat \<Rightarrow> string \<Rightarrow> string list \<Rightarrow> string option" where
  "scan_modes ag r request_lower [] = None"
| "scan_modes ag r request_lower (mode_name # rest) =
     (if sublist (lower mode_name) request_lower
      then Some (generate_failure_mode_response ag r mode_name)
      else scan_modes ag r request_lower rest)"

text \<open>
  The second loop: the categories in index order. The condition is evaluated for each
  category that is reached, and evaluating it lower-cases the category.
\<close>

fun scan_categories :: "educator \<Rightarrow> string \<Rightarrow> string option list \<Rightarrow> error + string option" where
  "scan_categories ag request_lower [] = Inr None"
| "scan_categories ag request_lower (None # rest) = Inl AttributeError"
| "scan_categories ag request_lower (Some cat # rest) =
     (if sublist (''explain '' @ lower cat) request_lower
         \<or> sublist (''about '' @ lower cat) request_lower
      then Inr (Some (generate_category_response ag (Some cat)))
      else scan_categories ag request_lower rest)"

definition process_user_request :: "educator \<Rightarrow> nat \<Rightarrow> string \<Rightarrow> error + string" where
  "process_user_request ag r request =
     (let request_lower = lower request
      in case scan_modes ag r request_lower (keys (failure_modes ag)) of
           Some response \<Rightarrow> Inr response
         | None \<Rightarrow>
            (case scan_categories ag request_lower (keys (categories ag)) of
               Inl e \<Rightarrow> Inl e
             | Inr (Some response) \<Rightarrow> Inr response
             | Inr None \<Rightarrow>
                 if sublist ''list all failure modes'' request_lower
                    \<or> sublist ''show all failures'' request_lower
                 then Inr (generate_all_failure_modes_response ag)
                 else if sublist ''list all categories'' request_lower
                    \<or> sublist ''show all categories'' request_lower
                 then Inr (generate_all_categories_response ag)
                 else Inr generate_help_response))"

section \<open>The interaction log (database.py)\<close>

text \<open>
  A table is the list of its rows in rowid order. \<open>CURRENT_TIMESTAMP\<close> has a resolution
  of one second and is compared as text of a fixed width: it is a number of seconds
  here, and the clock reading of each insertion is an input of the model.
\<close>

record query_row =
  q_id :: nat
  q_query :: string
  q_timestamp :: nat

record view_row =
  v_id :: nat
  v_failure_mode :: string
  v_timestamp :: nat

record feedback_row =
  f_id :: nat
  f_failure_mode :: string
  f_solution_type :: string
  f_solution_text :: string
  f_rating :: "int option"
  f_comment :: "string option"
  f_timestamp :: nat

record database =
  user_queries :: "query_row list"
  viewed_failure_modes :: "view_row list"
  solution_feedback :: "feedback_row list"

text \<open>\<open>_create_tables\<close> on a fresh file.\<close>

definition create_tables :: database where
  "create_tables = \<lparr>user_queries = [], viewed_failure_modes = [], solution_feedback = []\<rparr>"

text \<open>\<open>INTEGER PRIMARY KEY AUTOINCREMENT\<close>: one more than the largest rowid so far.\<close>

definition next_rowid :: "nat list \<Rightarrow> nat" where
  "next_rowid ids = Suc (foldr max ids 0)"

definition log_user_query :: "database \<Rightarrow> nat \<Rightarrow> string \<Rightarrow> nat \<times> database" where
  "log_user_query db now query =
     (let lastrowid = next_rowid (map q_id (user_queries db))
      in (lastrowid,
          db\<lparr>user_queries := user_queries db @
               [\<lparr>q_id = lastrowid, q_query = query, q_timestamp = now\<rparr>]\<rparr>))"

definition log_viewed_failure_mode :: "database \<Rightarrow> nat \<Rightarrow> string \<Rightarrow> nat \<times> database" where
  "log_viewed_failure_mode db now mode =
     (let lastrowid = next_rowid (map v_id (viewed_failure_modes db))
      in (lastrowid,
          db\<lparr>viewed_failure_modes := viewed_failure_modes db @
               [\<lparr>v_id = lastrowid, v_failure_mode = mode, v_timestamp = now\<rparr>]\<rparr>))"

definition log_solution_feedback ::
  "database \<Rightarrow> nat \<Rightarrow> string \<Rightarrow> string \<Rightarrow> string \<Rightarrow> int option \<Rightarrow> string option \<Rightarrow> nat \<times> database"
where
  "log_solution_feedback db now mode solution_type solution_text rating comment =
     (let lastrowid = next_rowid (map f_id (solution_feedback db))
      in (lastrowid,
          db\<lparr>solution_feedback := solution_feedback db @
               [\<lparr>f_id = lastrowid, f_failure_mode = mode, f_solution_type = solution_type,
                 f_solution_text = solution_text, f_rating = rating, f_comment = comment,
                 f_timestamp = now\<rparr>]\<rparr>))"

text \<open>
  The three SQL clauses the queries use. \<open>LIMIT n\<close> with a negative \<open>n\<close> is no limit.
  \<open>ORDER BY key DESC\<close> has no second sort key in any query of the file, and SQLite
  then keeps rows with equal keys in the order in which they reach the sorter: the sort
  is stable. \<open>GROUP BY\<close> delivers one row per distinct key, in ascending key order;
  under an \<open>ORDER BY ... DESC\<close> with as many terms SQLite walks the groups in
  descending key order instead.
\<close>

definition sql_limit :: "int \<Rightarrow> 'a list \<Rightarrow> 'a list" where
  "sql_limit n rows = (if n < 0 then rows else take (nat n) rows)"

definition order_by_desc :: "('a \<Rightarrow> nat) \<Rightarrow> 'a list \<Rightarrow> 'a list" where
  "order_by_desc key rows = sort_key (\<lambda>row. - int (key row)) rows"

definition group_keys :: "string list \<Rightarrow> string list" where
  "group_keys ks = sort (remdups ks)"

record view_count_row =
  failure_mode :: string
  view_count :: nat

definition get_most_viewed_failure_modes :: "database \<Rightarrow> int \<Rightarrow> view_count_row list" where
  "get_most_viewed_failure_modes db limit =
     (let rows = viewed_failure_modes db;
          groups = map (\<lambda>k. \<lparr>failure_mode = k,
                               view_count = length (filter (\<lambda>row. v_failure_mode row = k) rows)\<rparr>)
                     (rev (group_keys (map v_failure_mode rows)))
      in sql_limit limit (order_by_desc view_count groups))"

definition get_recent_queries :: "database \<Rightarrow> int \<Rightarrow> query_row list" where
  "get_recent_queries db limit = sql_limit limit (order_by_desc q_timestamp (user_queries db))"

text \<open>
  \<open>AVG\<close> skips the \<open>NULL\<close>s of its group and is the sum of the other values over their
  number, \<open>NULL\<close> when there is none; SQLite computes it in double precision, the
  model in the reals.
\<close>

definition non_null :: "'a option list \<Rightarrow> 'a list" where
  "non_null vs = concat (map (\<lambda>v. case v of None \<Rightarrow> [] | Some x \<Rightarrow> [x]) vs)"

definition avg :: "int option list \<Rightarrow> real option" where
  "avg vs =
     (let xs = non_null vs
      in if xs = [] then None else Some (real_of_int (sum_list xs) / real (length xs)))"

record feedback_stats =
  avg_ratings_by_type :: "(string, real option) dict"
  feedback_count_by_mode :: "(string, nat) dict"

definition get_solution_feedback_stats :: "database \<Rightarrow> feedback_stats" where
  "get_solution_feedback_stats db =
     (let rows = solution_feedback db;
          rated = filter (\<lambda>row. f_rating row \<noteq> None) rows
      in \<lparr>avg_ratings_by_type =
            map (\<lambda>k. (k, avg (map f_rating (filter (\<lambda>row. f_solution_type row = k) rated))))
              (group_keys (map f_solution_type rated)),
          feedback_count_by_mode =
            map (\<lambda>k. (k, length (filter (\<lambda>row. f_failure_mode row = k) rows)))
              (group_keys (map f_failure_mode rows))\<rparr>)"

section \<open>The running application (app.py, and the router as it runs)\<close>

text \<open>
  The state of the process that \<open>_process_query\<close> and the router can reach: the agent
  object, the database, the generator of the \<open>random\<close> module and the two widgets of
  the query tab. The generator is the sequence of numbers it will deliver and the
  position of the next one; \<open>random.choice\<close> reads the number at the position and
  moves the position on.
\<close>

record generator =
  tape :: "nat \<Rightarrow> nat"
  pos :: nat

record app =
  agent :: educator
  db :: database
  rng :: generator
  query_entry :: string
  response_text :: string

definition next_draw :: "app \<Rightarrow> nat" where
  "next_draw a = tape (rng a) (pos (rng a))"

definition advance :: "app \<Rightarrow> app" where
  "advance a = a\<lparr>rng := (rng a)\<lparr>pos := Suc (pos (rng a))\<rparr>\<rparr>"

definition random_choice :: "'a list \<Rightarrow> app \<Rightarrow> 'a \<times> app" where
  "random_choice seq a = (choice (next_draw a) seq, advance a)"

text \<open>
  The methods of the agent as they run inside the application: each takes the state and
  returns its result with the state after the call. Every call of the source is a call
  here, with the state threaded through in the order of the statements.
\<close>

definition get_failure_mode_info_st :: "string \<Rightarrow> app \<Rightarrow> mode_data \<times> app" where
  "get_failure_mode_info_st mode_name a =
     (dict_get (failure_modes (agent a)) mode_name empty_mode, a)"

definition get_failure_modes_in_category_st :: "string option \<Rightarrow> app \<Rightarrow> string list \<times> app" where
  "get_failure_modes_in_category_st cat a = (dict_get (categories (agent a)) cat [], a)"

definition demonstrate_failure_mode_st :: "string \<Rightarrow> app \<Rightarrow> string \<times> app" where
  "demonstrate_failure_mode_st mode_name a =
     (let (mode_info, a1) = get_failure_mode_info_st mode_name a;
          scenarios = (case example_scenarios mode_info of None \<Rightarrow> [] | Some xs \<Rightarrow> xs)
      in if scenarios = []
         then (''No demonstration scenarios available for '' @ mode_name @ ''.'', a1)
         else random_choice scenarios a1)"

definition analyze_failure_mode_st :: "string \<Rightarrow> app \<Rightarrow> string \<times> app" where
  "analyze_failure_mode_st mode_name a =
     (let (mode_info, a1) = get_failure_mode_info_st mode_name a
      in (case phd_level_analysis mode_info of
            None \<Rightarrow> ''No analysis available for '' @ mode_name @ ''.''
          | Some t \<Rightarrow> t, a1))"

definition get_solutions_st :: "string \<Rightarrow> app \<Rightarrow> solutions \<times> app" where
  "get_solutions_st mode_name a =
     (let (mode_info, a1) = get_failure_mode_info_st mode_name a
      in (\<lparr>tactical = (case tactical_solutions mode_info of None \<Rightarrow> [] | Some xs \<Rightarrow> xs),
           structural = (case structural_solutions mode_info of None \<Rightarrow> [] | Some xs \<Rightarrow> xs)\<rparr>,
          a1))"

definition mode_bullet_st :: "string \<times> app \<Rightarrow> string \<Rightarrow> string \<times> app" where
  "mode_bullet_st ra mode =
     (let (mode_info, a1) = get_failure_mode_info_st mode (snd ra)
      in (fst ra @ ''- **'' @ mode @ ''**: '' @
          (case short_description mode_info of None \<Rightarrow> ''No description available.'' | Some d \<Rightarrow> d)
          @ nl, a1))"

definition generate_failure_mode_response_st :: "string \<Rightarrow> app \<Rightarrow> string \<times> app" where
  "generate_failure_mode_response_st mode_name a =
     (let (mode_info, a1) = get_failure_mode_info_st mode_name a;
          (demonstration, a2) = demonstrate_failure_mode_st mode_name a1;
          (analysis, a3) = analyze_failure_mode_st mode_name a2;
          (sols, a4) = get_solutions_st mode_name a3;
          response = ''# '' @ mode_name @ '' (Category: '' @ fmt (category mode_info) @ '')'';
          response = response @ nl @ nl @ ''## Definition'' @ nl @
            (case description mode_info of None \<Rightarrow> ''No description available.'' | Some d \<Rightarrow> d);
          response = response @ nl @ nl @ ''## Demonstration'' @ nl @ demonstration;
          response = response @ nl @ nl @ ''## PhD-Level Analysis'' @ nl @ analysis;
          response = response @ nl @ nl @ ''## Solutions'' @ nl;
          response = response @ nl @ ''### Tactical Solutions'' @ nl;
          response = foldl solution_bullet response (tactical sols);
          response = response @ nl @ ''### Structural Solutions'' @ nl;
          response = foldl solution_bullet response (structural sols)
      in (response, a4))"

definition generate_category_response_st :: "string option \<Rightarrow> app \<Rightarrow> string \<times> app" where
  "generate_category_response_st cat a =
     (let explanation = explain_category cat;
          (modes, a1) = get_failure_modes_in_category_st cat a;
          response = ''# '' @ fmt cat @ nl @ nl @ explanation @ nl @ nl @
            ''## Failure Modes in this Category:'' @ nl
      in foldl mode_bullet_st (response, a1) modes)"

definition generate_all_failure_modes_response_st :: "app \<Rightarrow> string \<times> app" where
  "generate_all_failure_modes_response_st a =
     foldl (\<lambda>ra item.
              let (response, a1) = foldl mode_bullet_st (fst ra @ ''## '' @ fmt (fst item) @ nl, snd ra)
                                     (snd item)
              in (response @ nl, a1))
       (''# All Failure Modes'' @ nl @ nl, a) (categories (agent a))"

definition generate_all_categories_response_st :: "app \<Rightarrow> string \<times> app" where
  "generate_all_categories_response_st a =
     (foldl (\<lambda>response cat. response @ ''## '' @ fmt cat @ nl @ explain_category cat @ nl @ nl)
        (''# All Failure Mode Categories'' @ nl @ nl) (keys (categories (agent a))), a)"

fun scan_modes_st :: "string \<Rightarrow> string list \<Rightarrow> app \<Rightarrow> string option \<times> app" where
  "scan_modes_st request_lower [] a = (None, a)"
| "scan_modes_st request_lower (mode_name # rest) a =
     (if sublist (lower mode_name) request_lower
      then (let (response, a1) = generate_failure_mode_response_st mode_name a
            in (Some response, a1))
      else scan_modes_st request_lower rest a)"

fun scan_categories_st ::
  "string \<Rightarrow> string option list \<Rightarrow> app \<Rightarrow> (error + string option) \<times> app" where
  "scan_categories_st request_lower [] a = (Inr None, a)"
| "scan_categories_st request_lower (None # rest) a = (Inl AttributeError, a)"
| "scan_categories_st request_lower (Some cat # rest) a =
     (if sublist (''explain '' @ lower cat) request_lower
         \<or> sublist (''about '' @ lower cat) request_lower
      then (let (response, a1) = generate_category_response_st (Some cat) a
            in (Inr (Some response), a1))
      else scan_categories_st request_lower rest a)"

definition process_user_request_st :: "string \<Rightarrow> app \<Rightarrow> (error + string) \<times> app" where
  "process_user_request_st request a =
     (let request_lower = lower request;
          (found, a1) = scan_modes_st request_lower (keys (failure_modes (agent a))) a
      in case found of
           Some response \<Rightarrow> (Inr response, a1)
         | None \<Rightarrow>
            (let (found_category, a2) =
                   scan_categories_st request_lower (keys (categories (agent a1))) a1
             in case found_category of
                  Inl e \<Rightarrow> (Inl e, a2)
                | Inr (Some response) \<Rightarrow> (Inr response, a2)
                | Inr None \<Rightarrow>
                    if sublist ''list all failure modes'' request_lower
                       \<or> sublist ''show all failures'' request_lower
                    then (let (response, a3) = generate_all_failure_modes_response_st a2
                          in (Inr response, a3))
                    else if sublist ''list all categories'' request_lower
                       \<or> sublist ''show all categories'' request_lower
                    then (let (response, a3) = generate_all_categories_response_st a2
                          in (Inr response, a3))
                    else (Inr generate_help_response, a2)))"

text \<open>
  \<open>_process_query\<close>, with the exception that left it, if any: an exception of the
  router leaves the method after the query is logged and before the widgets are written.
  \<open>str.strip\<close> is the built-in of Python and a parameter here: nothing below depends
  on which characters it removes.
\<close>

definition process_query :: "(string \<Rightarrow> string) \<Rightarrow> app \<Rightarrow> nat \<Rightarrow> error option \<times> app" where
  "process_query strip a now =
     (let query = strip (query_entry a)
      in if query = [] then (None, a)
         else let a1 = a\<lparr>db := snd (log_user_query (db a) now query)\<rparr>;
                  (result, a2) = process_user_request_st query a1
              in case result of
                   Inl e \<Rightarrow> (Some e, a2)
                 | Inr response \<Rightarrow> (None, a2\<lparr>response_text := response, query_entry := []\<rparr>))"

section \<open>Call sequences and predicates used in the statements\<close>

text \<open>A sequence of \<open>log_user_query\<close> calls, each with its clock reading and its text.\<close>

definition log_queries :: "database \<Rightarrow> (nat \<times> string) list \<Rightarrow> database" where
  "log_queries d calls = foldl (\<lambda>d c. snd (log_user_query d (fst c) (snd c))) d calls"

text \<open>A sequence of \<open>log_viewed_failure_mode\<close> calls.\<close>

definition log_views :: "database \<Rightarrow> (nat \<times> string) list \<Rightarrow> database" where
  "log_views d calls = foldl (\<lambda>d c. snd (log_viewed_failure_mode d (fst c) (snd c))) d calls"

text \<open>The arguments of one \<open>log_solution_feedback\<close> call, and a sequence of such calls.\<close>

record feedback_call =
  c_now :: nat
  c_failure_mode :: string
  c_solution_type :: string
  c_solution_text :: string
  c_rating :: "int option"
  c_comment :: "string option"

definition log_feedbacks :: "database \<Rightarrow> feedback_call list \<Rightarrow> database" where
  "log_feedbacks d calls =
     foldl (\<lambda>d c. snd (log_solution_feedback d (c_now c) (c_failure_mode c) (c_solution_type c)
                          (c_solution_text c) (c_rating c) (c_comment c))) d calls"

definition entry :: "feedback_row \<Rightarrow> string \<times> string \<times> int option" where
  "entry row = (f_failure_mode row, f_solution_type row, f_rating row)"

definition call_entry :: "feedback_call \<Rightarrow> string \<times> string \<times> int option" where
  "call_entry c = (c_failure_mode c, c_solution_type c, c_rating c)"

definition ids_ascending :: "query_row list \<Rightarrow> bool" where
  "ids_ascending rows = sorted_wrt (\<lambda>a b. q_id a < q_id b) rows"

text \<open>
  The condition of the category loop as the specification words it: the request contains
  \<open>explain\<close> or \<open>about\<close>, a blank and the lower-cased name of the category. A category
  without a name matches nothing.
\<close>

definition category_matches :: "string \<Rightarrow> string option \<Rightarrow> bool" where
  "category_matches request_lower cat =
     (case cat of None \<Rightarrow> False
      | Some c \<Rightarrow> sublist (''explain '' @ lower c) request_lower
           \<or> sublist (''about '' @ lower c) request_lower)"

text \<open>The scenario list that \<open>demonstrate_failure_mode\<close> reads for a failure mode.\<close>

definition scenarios_of :: "educator \<Rightarrow> string \<Rightarrow> string list" where
  "scenarios_of ag mode_name =
     (case example_scenarios (get_failure_mode_info ag mode_name) of None \<Rightarrow> [] | Some xs \<Rightarrow> xs)"

section \<open>Example stores\<close>

text \<open>
  Two small stores on which the theorems about failure-mode documents are instantiated,
  and an application around the second whose generator delivers 1, 2, 3 and so on.
\<close>

definition solutions_store :: educator where
  "solutions_store =
     init_educator [(''Zed'', empty_mode\<lparr>tactical_solutions := Some [''t1'', ''t2''],
                                          structural_solutions := Some []\<rparr>)]"



section \<open>The category index\<close>

lemma keys_organize_step:
  "keys (organize_step cats item) =
     (if category (snd item) \<in> set (keys cats) then keys cats
      else keys cats @ [category (snd item)])"
  by (auto simp: organize_step_def keys_def Let_def case_prod_unfold o_def intro!: map_idI)

lemma dict_get_organize_step:
  "dict_get (organize_step cats item) k [] =
     (if k = category (snd item) then dict_get cats k [] @ [fst item] else dict_get cats k [])"
proof -
  have a: "map_of (map (\<lambda>(k', v). if k' = c then (k', v @ [n]) else (k', v)) xs) k =
        (if k = c then map_option (\<lambda>v. v @ [n]) (map_of xs k) else map_of xs k)" for xs c n
    by (induction xs) auto
  have b: "map_of (xs @ [(c, [])]) k = (if map_of xs k = None \<and> k = c then Some [] else map_of xs k)"
    for xs :: "(string option \<times> string list) list" and c
    by (induction xs) auto
  show ?thesis
    by (auto simp: organize_step_def Let_def dict_get_def a b keys_def map_of_eq_None_iff
        split: option.splits dest: map_of_SomeD intro: rev_image_eqI)
qed

lemma keys_organize_fold:
  "set (keys (foldl organize_step cats items)) = set (keys cats) \<union> (category \<circ> snd) ` set items"
  by (induction items arbitrary: cats) (auto simp: keys_organize_step)

lemma distinct_organize_fold:
  "distinct (keys cats) \<Longrightarrow> distinct (keys (foldl organize_step cats items))"
  by (induction items arbitrary: cats) (auto simp: keys_organize_step)

lemma bucket_organize_fold:
  "dict_get (foldl organize_step cats items) k [] =
     dict_get cats k [] @ map fst (filter (\<lambda>it. category (snd it) = k) items)"
  by (induction items arbitrary: cats) (auto simp: dict_get_organize_step)

lemma count_list_distinct: "distinct xs \<Longrightarrow> x \<in> set xs \<Longrightarrow> count_list xs x = 1"
  by (induction xs) auto

lemma categories_of_store:
  "set (get_all_categories (init_educator fm)) = (category \<circ> snd) ` set fm"
  "distinct (get_all_categories (init_educator fm))"
  "get_failure_modes_in_category (init_educator fm) k =
     map fst (filter (\<lambda>it. category (snd it) = k) fm)"
  using keys_organize_fold[of "[]" fm] distinct_organize_fold[of "[]" fm]
    bucket_organize_fold[of "[]" fm k]
  by (simp_all add: get_all_categories_def init_educator_def organize_categories_def
      get_failure_modes_in_category_def keys_def dict_get_def)

lemma bucket_exactly_once:
  assumes "distinct (keys fm)" "(mode_name, d) \<in> set fm"
  shows "category d \<in> set (get_all_categories (init_educator fm))"
    and "count_list (get_all_categories (init_educator fm)) (category d) = 1"
    and "count_list (get_failure_modes_in_category (init_educator fm) (category d)) mode_name = 1"
    and "mode_name \<in> set (get_failure_modes_in_category (init_educator fm) k) \<longleftrightarrow> k = category d"
proof -
  have "(category \<circ> snd) (mode_name, d) \<in> (category \<circ> snd) ` set fm"
    using assms(2) by (rule imageI)
  then show 1: "category d \<in> set (get_all_categories (init_educator fm))"
    by (simp add: categories_of_store(1))
  then show "count_list (get_all_categories (init_educator fm)) (category d) = 1"
    by (simp add: count_list_distinct categories_of_store(2))
  have dist: "distinct (map fst fm)"
    using assms(1) by (simp add: keys_def)
  have mem: "mode_name \<in> set (map fst (filter (\<lambda>it. category (snd it) = k) fm))
      \<longleftrightarrow> k = category d" for k
  proof
    assume "mode_name \<in> set (map fst (filter (\<lambda>it. category (snd it) = k) fm))"
    then obtain d' where d': "(mode_name, d') \<in> set fm" "category d' = k"
      by auto
    from dist d'(1) assms(2) have "d' = d"
      by (rule eq_key_imp_eq_value)
    with d'(2) show "k = category d" by simp
  next
    assume "k = category d"
    then have "(mode_name, d) \<in> set (filter (\<lambda>it. category (snd it) = k) fm)"
      using assms(2) by simp
    then have "fst (mode_name, d) \<in> fst ` set (filter (\<lambda>it. category (snd it) = k) fm)"
      by (rule imageI)
    then show "mode_name \<in> set (map fst (filter (\<lambda>it. category (snd it) = k) fm))"
      by simp
  qed
  have "distinct (map fst (filter (\<lambda>it. category (snd it) = category d) fm))"
    using dist by (rule distinct_map_filter)
  then show
    "count_list (get_failure_modes_in_category (init_educator fm) (category d)) mode_name = 1"
    using mem[of "category d"] by (simp add: count_list_distinct categories_of_store(3))
  show "mode_name \<in> set (get_failure_modes_in_category (init_educator fm) k)
      \<longleftrightarrow> k = category d"
    using mem[of k] by (simp only: categories_of_store(3))
qed

text \<open>
  Claim C6. The category index is derived by one pass over the failure modes in their
  order, creating each bucket on first sight and appending the identifier. For every
  record of the collection that has a category, that category is listed exactly once by
  \<open>get_all_categories\<close>, and the identifier of the record occurs exactly once in
  \<open>get_failure_modes_in_category\<close> of that category. The collection is a dict, so no
  identifier occurs twice in it.
\<close>

theorem category_index_exactly_once:
  assumes "distinct (keys fm)" and "(mode_name, d) \<in> set fm" and "category d = Some c"
  shows "count_list (get_all_categories (init_educator fm)) (Some c) = 1 \<and>
         count_list (get_failure_modes_in_category (init_educator fm) (Some c)) mode_name = 1"
  using bucket_exactly_once(2,3)[OF assms(1,2)] assms(3) by simp

theorem category_index_exactly_once_witness:
  "count_list (get_all_categories (init_educator
      [(''Information Withholding'', empty_mode\<lparr>category := Some ''Communication Failures''\<rparr>),
       (''Value Misalignment'', empty_mode\<lparr>category := Some ''Alignment Failures''\<rparr>),
       (''Signal Distortion'', empty_mode\<lparr>category := Some ''Communication Failures''\<rparr>)]))
     (Some ''Communication Failures'') = 1 \<and>
   count_list (get_failure_modes_in_category (init_educator
      [(''Information Withholding'', empty_mode\<lparr>category := Some ''Communication Failures''\<rparr>),
       (''Value Misalignment'', empty_mode\<lparr>category := Some ''Alignment Failures''\<rparr>),
       (''Signal Distortion'', empty_mode\<lparr>category := Some ''Communication Failures''\<rparr>)])
     (Some ''Communication Failures'')) ''Signal Distortion'' = 1"
proof -
  have "distinct (keys
      [(''Information Withholding'', empty_mode\<lparr>category := Some ''Communication Failures''\<rparr>),
       (''Value Misalignment'', empty_mode\<lparr>category := Some ''Alignment Failures''\<rparr>),
       (''Signal Distortion'', empty_mode\<lparr>category := Some ''Communication Failures''\<rparr>)])"
    by (simp add: keys_def)
  moreover have "(''Signal Distortion'', empty_mode\<lparr>category := Some ''Communication Failures''\<rparr>)
    \<in> set
      [(''Information Withholding'', empty_mode\<lparr>category := Some ''Communication Failures''\<rparr>),
       (''Value Misalignment'', empty_mode\<lparr>category := Some ''Alignment Failures''\<rparr>),
       (''Signal Distortion'', empty_mode\<lparr>category := Some ''Communication Failures''\<rparr>)]"
    by simp
  moreover have "category (empty_mode\<lparr>category := Some ''Communication Failures''\<rparr>)
      = Some ''Communication Failures''"
    by simp
  ultimately show ?thesis
    by (rule category_index_exactly_once)
qed

text \<open>
  Claim C10. A record without a category field is indexed like any other: construction
  has no failing step, the key \<open>None\<close> is listed exactly once by \<open>get_all_categories\<close>,
  the identifier of the record occurs exactly once in the bucket of \<open>None\<close>, and every
  identifier of the collection, with or without a category, lies in the bucket of the
  category of its record and in no other bucket.
\<close>

theorem missing_category_bucket:
  assumes "distinct (keys fm)" and "(mode_name, d) \<in> set fm" and "category d = None"
  shows "count_list (get_all_categories (init_educator fm)) None = 1
    \<and> count_list (get_failure_modes_in_category (init_educator fm) None) mode_name = 1
    \<and> (\<forall>(n, d') \<in> set fm.
          category d' \<in> set (get_all_categories (init_educator fm))
          \<and> (\<forall>k. n \<in> set (get_failure_modes_in_category (init_educator fm) k)
                \<longleftrightarrow> k = category d'))"
  using bucket_exactly_once(2,3)[OF assms(1,2)] bucket_exactly_once(1,4)[OF assms(1)] assms(3)
  by auto

theorem missing_category_bucket_witness:
  "count_list (get_all_categories (init_educator
      [(''Information Withholding'', empty_mode\<lparr>category := Some ''Communication Failures''\<rparr>),
       (''Unfiled'', empty_mode)])) None = 1
   \<and> count_list (get_failure_modes_in_category (init_educator
      [(''Information Withholding'', empty_mode\<lparr>category := Some ''Communication Failures''\<rparr>),
       (''Unfiled'', empty_mode)]) None) ''Unfiled'' = 1"
proof -
  have "distinct (keys
      [(''Information Withholding'', empty_mode\<lparr>category := Some ''Communication Failures''\<rparr>),
       (''Unfiled'', empty_mode)])"
    by (simp add: keys_def)
  moreover have "(''Unfiled'', empty_mode) \<in> set
      [(''Information Withholding'', empty_mode\<lparr>category := Some ''Communication Failures''\<rparr>),
       (''Unfiled'', empty_mode)]"
    by simp
  moreover have "category empty_mode = None"
    by (simp add: empty_mode_def)
  ultimately show ?thesis
    using missing_category_bucket by blast
qed

section \<open>The router\<close>

lemma foldl_solution_bullet:
  "foldl solution_bullet response xs = response @ concat (map (\<lambda>s. ''- '' @ s @ nl) xs)"
  by (induction xs arbitrary: response) (simp_all add: solution_bullet_def)

lemma scan_modes_find:
  "scan_modes ag r request_lower ms =
     map_option (generate_failure_mode_response ag r)
       (find (\<lambda>m. sublist (lower m) request_lower) ms)"
  by (induction ms) simp_all

lemma scan_categories_find:
  "None \<notin> set cs \<Longrightarrow>
   scan_categories ag request_lower cs =
     Inr (map_option (generate_category_response ag) (find (category_matches request_lower) cs))"
  by (induction ag request_lower cs rule: scan_categories.induct)
     (simp_all add: category_matches_def)

text \<open>
  On a store whose category index has no \<open>None\<close> key the router is the priority
  cascade: first matching identifier in store order, else first matching category in
  index order, else the two listing commands, else the help text.
\<close>

lemma process_user_request_priority:
  assumes "None \<notin> set (get_all_categories ag)"
  shows "process_user_request ag r request =
     (case find (\<lambda>m. sublist (lower m) (lower request)) (keys (failure_modes ag)) of
        Some m \<Rightarrow> Inr (generate_failure_mode_response ag r m)
      | None \<Rightarrow>
         (case find (category_matches (lower request)) (get_all_categories ag) of
            Some c \<Rightarrow> Inr (generate_category_response ag c)
          | None \<Rightarrow>
             if sublist ''list all failure modes'' (lower request)
                \<or> sublist ''show all failures'' (lower request)
             then Inr (generate_all_failure_modes_response ag)
             else if sublist ''list all categories'' (lower request)
                \<or> sublist ''show all categories'' (lower request)
             then Inr (generate_all_categories_response ag)
             else Inr generate_help_response))"
  using assms
  by (simp add: process_user_request_def scan_modes_find scan_categories_find
      get_all_categories_def Let_def split: option.splits)

lemma process_user_request_total:
  assumes "None \<notin> set (get_all_categories ag)"
  shows "\<exists>response. process_user_request ag r request = Inr response"
  unfolding process_user_request_priority[OF assms]
  by (simp split: option.splits)

lemma process_user_request_mode:
  "find (\<lambda>m. sublist (lower m) (lower request)) (keys (failure_modes ag)) = Some m \<Longrightarrow>
   process_user_request ag r request = Inr (generate_failure_mode_response ag r m)"
  by (simp add: process_user_request_def scan_modes_find Let_def)


lemma demonstrate_range:
  "demonstrate_failure_mode ag r m =
     (let scenarios = (case example_scenarios (get_failure_mode_info ag m) of None \<Rightarrow> [] | Some xs \<Rightarrow> xs)
      in if scenarios = [] then ''No demonstration scenarios available for '' @ m @ ''.''
         else scenarios ! (r mod length scenarios))"
  by (simp add: demonstrate_failure_mode_def choice_def Let_def)

text \<open>An empty or missing scenario list yields the placeholder, for every draw.\<close>

lemma demonstrate_failure_mode_empty:
  "example_scenarios (get_failure_mode_info ag m) = Some [] \<or>
   example_scenarios (get_failure_mode_info ag m) = None \<Longrightarrow>
   demonstrate_failure_mode ag r m = ''No demonstration scenarios available for '' @ m @ ''.''"
  unfolding demonstrate_range by auto

lemma generate_failure_mode_response_layout:
  "generate_failure_mode_response ag r m =
     (''# '' @ m @ '' (Category: '' @ fmt (category (get_failure_mode_info ag m)) @ '')'' @ nl @ nl @
      ''## Definition'' @ nl @
      (case description (get_failure_mode_info ag m) of
         None \<Rightarrow> ''No description available.'' | Some d \<Rightarrow> d) @ nl @ nl @
      ''## Demonstration'' @ nl) @ demonstrate_failure_mode ag r m @
     (nl @ nl @ ''## PhD-Level Analysis'' @ nl @ analyze_failure_mode ag m @ nl @ nl @
      ''## Solutions'' @ nl @ nl @
      ''### Tactical Solutions'' @ nl @
      concat (map (\<lambda>s. ''- '' @ s @ nl) (tactical (get_solutions ag m))) @ nl @
      ''### Structural Solutions'' @ nl @
      concat (map (\<lambda>s. ''- '' @ s @ nl) (structural (get_solutions ag m))))"
  by (simp add: generate_failure_mode_response_def Let_def foldl_solution_bullet)

text \<open>
  Claim C1. The router is to match in strict priority order for every request and every
  store: a failure-mode identifier, else a category, else the all-modes listing, else the
  all-categories listing, else the help text. The code does so on every store whose
  records all carry a category (\<open>process_user_request_priority\<close>). On a store with a
  record that has no category the index holds the key \<open>None\<close>, and the category loop
  calls \<open>category.lower()\<close> on it: a request that names no failure mode and asks for
  the list of all failure modes raises \<open>AttributeError\<close> instead of returning the
  all-modes document.
\<close>

theorem route_priority_stops_at_missing_category:
  "process_user_request (init_educator [(''Zed'', empty_mode)]) 0 ''list all failure modes''
     = Inl AttributeError"
  by code_simp

text \<open>
  Claim C2. The router is to return a string for every request and never to raise, a
  request that matches no rule getting the help text. The branches that build documents
  are total, and an empty scenario list yields the placeholder
  (\<open>demonstrate_failure_mode_empty\<close>); on a store without a \<open>None\<close> category every
  request gets a string (\<open>process_user_request_total\<close>). On a store with a record
  that has no category, a request that matches no rule raises \<open>AttributeError\<close> in the
  category loop instead of returning the help text.
\<close>

theorem route_unmatched_request_raises:
  "process_user_request (init_educator [(''Zed'', empty_mode)]) 0 ''hello''
     = Inl AttributeError"
  by code_simp

text \<open>
  Claim C7. When the router answers with the document of a failure mode, the Solutions
  section holds the Tactical Solutions heading, one bullet per tactical solution in list
  order, the Structural Solutions heading and one bullet per structural solution in list
  order. A list that is empty (or missing) leaves its heading in place with no bullet
  under it: with no structural solution the document ends with the Structural Solutions
  heading, with no tactical solution the Structural Solutions heading follows the
  Tactical Solutions heading after one blank line.
\<close>

theorem failure_mode_document_solutions:
  assumes "find (\<lambda>m. sublist (lower m) (lower request)) (keys (failure_modes ag)) = Some m"
  shows "\<exists>before.
     process_user_request ag r request =
       Inr (before @ ''## Solutions'' @ nl @ nl @
            ''### Tactical Solutions'' @ nl @
            concat (map (\<lambda>s. ''- '' @ s @ nl)
              (case tactical_solutions (get_failure_mode_info ag m) of None \<Rightarrow> [] | Some xs \<Rightarrow> xs)) @ nl @
            ''### Structural Solutions'' @ nl @
            concat (map (\<lambda>s. ''- '' @ s @ nl)
              (case structural_solutions (get_failure_mode_info ag m) of None \<Rightarrow> [] | Some xs \<Rightarrow> xs)))
     \<and> (structural_solutions (get_failure_mode_info ag m) = Some [] \<longrightarrow>
          process_user_request ag r request =
            Inr (before @ ''## Solutions'' @ nl @ nl @
                 ''### Tactical Solutions'' @ nl @
                 concat (map (\<lambda>s. ''- '' @ s @ nl)
                   (case tactical_solutions (get_failure_mode_info ag m) of None \<Rightarrow> [] | Some xs \<Rightarrow> xs)) @ nl @
                 ''### Structural Solutions'' @ nl))
     \<and> (tactical_solutions (get_failure_mode_info ag m) = Some [] \<longrightarrow>
          process_user_request ag r request =
            Inr (before @ ''## Solutions'' @ nl @ nl @
                 ''### Tactical Solutions'' @ nl @ nl @
                 ''### Structural Solutions'' @ nl @
                 concat (map (\<lambda>s. ''- '' @ s @ nl)
                   (case structural_solutions (get_failure_mode_info ag m) of None \<Rightarrow> [] | Some xs \<Rightarrow> xs))))"
proof -
  let ?before = "''# '' @ m @ '' (Category: '' @ fmt (category (get_failure_mode_info ag m)) @ '')'' @ nl @ nl @
      ''## Definition'' @ nl @
      (case description (get_failure_mode_info ag m) of
         None \<Rightarrow> ''No description available.'' | Some d \<Rightarrow> d) @ nl @ nl @
      ''## Demonstration'' @ nl @ demonstrate_failure_mode ag r m @
      nl @ nl @ ''## PhD-Level Analysis'' @ nl @ analyze_failure_mode ag m @ nl @ nl"
  have "process_user_request ag r request =
       Inr (?before @ ''## Solutions'' @ nl @ nl @
            ''### Tactical Solutions'' @ nl @
            concat (map (\<lambda>s. ''- '' @ s @ nl)
              (case tactical_solutions (get_failure_mode_info ag m) of None \<Rightarrow> [] | Some xs \<Rightarrow> xs)) @ nl @
            ''### Structural Solutions'' @ nl @
            concat (map (\<lambda>s. ''- '' @ s @ nl)
              (case structural_solutions (get_failure_mode_info ag m) of None \<Rightarrow> [] | Some xs \<Rightarrow> xs)))"
    unfolding process_user_request_mode[OF assms] generate_failure_mode_response_layout
    by (simp add: get_solutions_def Let_def)
  then show ?thesis
    by (intro exI[of _ ?before]) simp
qed

theorem failure_mode_document_solutions_witness:
  "\<exists>before.
     process_user_request solutions_store 0 ''tell me about ZED'' =
     Inr (before @ ''## Solutions'' @ nl @ nl @
          ''### Tactical Solutions'' @ nl @ ''- t1'' @ nl @ ''- t2'' @ nl @ nl @
          ''### Structural Solutions'' @ nl)"
proof -
  have h: "find (\<lambda>m. sublist (lower m) (lower ''tell me about ZED''))
             (keys (failure_modes solutions_store)) = Some ''Zed''"
    by code_simp
  have s: "structural_solutions (get_failure_mode_info solutions_store ''Zed'') = Some []"
    by code_simp
  have t: "tactical_solutions (get_failure_mode_info solutions_store ''Zed'') = Some [''t1'', ''t2'']"
    by code_simp
  have step: "\<exists>before.
       process_user_request solutions_store 0 ''tell me about ZED'' =
         Inr (before @ ''## Solutions'' @ nl @ nl @
              ''### Tactical Solutions'' @ nl @
              concat (map (\<lambda>s. ''- '' @ s @ nl)
                (case tactical_solutions (get_failure_mode_info solutions_store ''Zed'') of
                   None \<Rightarrow> [] | Some xs \<Rightarrow> xs)) @ nl @
              ''### Structural Solutions'' @ nl)"
    using failure_mode_document_solutions[OF h, of 0] s
    apply (erule_tac exE)
    apply (erule conjE)+
    apply (drule (1) mp)
    apply (rule exI)
    apply assumption
    done
  have eq: "concat (map (\<lambda>s. ''- '' @ s @ nl) [''t1'', ''t2'']) @ nl @ ''### Structural Solutions'' @ nl
      = ''- t1'' @ nl @ ''- t2'' @ nl @ nl @ ''### Structural Solutions'' @ nl"
    by simp
  show ?thesis
    using step unfolding t option.case eq .
qed

section \<open>The router as it runs\<close>

lemma advance_fields:
  "agent (advance a) = agent a" "db (advance a) = db a"
  "query_entry (advance a) = query_entry a" "response_text (advance a) = response_text a"
  "tape (rng (advance a)) = tape (rng a)" "pos (rng (advance a)) = Suc (pos (rng a))"
  by (simp_all add: advance_def)

lemma get_failure_mode_info_st_eq:
  "get_failure_mode_info_st mode_name a = (get_failure_mode_info (agent a) mode_name, a)"
  by (simp add: get_failure_mode_info_st_def get_failure_mode_info_def)

lemma get_failure_modes_in_category_st_eq:
  "get_failure_modes_in_category_st cat a = (get_failure_modes_in_category (agent a) cat, a)"
  by (simp add: get_failure_modes_in_category_st_def get_failure_modes_in_category_def)

text \<open>The state after a method that may draw a scenario for \<open>mode_name\<close>.\<close>

lemma demonstrate_failure_mode_st_eq:
  "demonstrate_failure_mode_st mode_name a =
     (demonstrate_failure_mode (agent a) (next_draw a) mode_name,
      if scenarios_of (agent a) mode_name = [] then a else advance a)"
  by (simp add: demonstrate_failure_mode_st_def demonstrate_failure_mode_def
      get_failure_mode_info_st_eq random_choice_def scenarios_of_def Let_def)

lemma analyze_failure_mode_st_eq:
  "analyze_failure_mode_st mode_name a = (analyze_failure_mode (agent a) mode_name, a)"
  by (simp add: analyze_failure_mode_st_def analyze_failure_mode_def get_failure_mode_info_st_eq)

lemma get_solutions_st_eq:
  "get_solutions_st mode_name a = (get_solutions (agent a) mode_name, a)"
  by (simp add: get_solutions_st_def get_solutions_def get_failure_mode_info_st_eq Let_def)

lemma foldl_mode_bullet_st:
  "foldl mode_bullet_st (response, a) modes = (foldl (mode_bullet (agent a)) response modes, a)"
  by (induction modes arbitrary: response)
     (simp_all add: mode_bullet_st_def mode_bullet_def get_failure_mode_info_st_eq Let_def)

lemma generate_failure_mode_response_st_eq:
  "generate_failure_mode_response_st mode_name a =
     (generate_failure_mode_response (agent a) (next_draw a) mode_name,
      if scenarios_of (agent a) mode_name = [] then a else advance a)"
  by (simp add: generate_failure_mode_response_st_def generate_failure_mode_response_def
      get_failure_mode_info_st_eq demonstrate_failure_mode_st_eq analyze_failure_mode_st_eq
      get_solutions_st_eq advance_fields Let_def)

lemma generate_category_response_st_eq:
  "generate_category_response_st cat a = (generate_category_response (agent a) cat, a)"
  by (simp add: generate_category_response_st_def generate_category_response_def
      get_failure_modes_in_category_st_eq foldl_mode_bullet_st Let_def)

lemma generate_all_failure_modes_response_st_eq:
  "generate_all_failure_modes_response_st a = (generate_all_failure_modes_response (agent a), a)"
proof -
  have "foldl (\<lambda>ra item.
              let (response, a1) = foldl mode_bullet_st (fst ra @ ''## '' @ fmt (fst item) @ nl, snd ra)
                                     (snd item)
              in (response @ nl, a1)) (response, a) cats
      = (foldl (\<lambda>response (cat, modes).
              foldl (mode_bullet (agent a)) (response @ ''## '' @ fmt cat @ nl) modes @ nl)
           response cats, a)" for response cats
    by (induction cats arbitrary: response) (simp_all add: foldl_mode_bullet_st split_def)
  then show ?thesis
    by (simp add: generate_all_failure_modes_response_st_def generate_all_failure_modes_response_def)
qed

lemma generate_all_categories_response_st_eq:
  "generate_all_categories_response_st a = (generate_all_categories_response (agent a), a)"
  by (simp add: generate_all_categories_response_st_def generate_all_categories_response_def)

lemma scan_modes_st_eq:
  "scan_modes_st request_lower ms a =
     (scan_modes (agent a) (next_draw a) request_lower ms,
      case find (\<lambda>m. sublist (lower m) request_lower) ms of
        None \<Rightarrow> a
      | Some m \<Rightarrow> if scenarios_of (agent a) m = [] then a else advance a)"
  by (induction ms) (simp_all add: generate_failure_mode_response_st_eq)

lemma scan_categories_st_eq:
  "scan_categories_st request_lower cs a = (scan_categories (agent a) request_lower cs, a)"
  by (induction request_lower cs a rule: scan_categories_st.induct)
     (simp_all add: generate_category_response_st_eq)

lemma scan_modes_None:
  "scan_modes ag r request_lower ms = None \<longleftrightarrow>
   find (\<lambda>m. sublist (lower m) request_lower) ms = None"
  by (simp add: scan_modes_find)

text \<open>
  The router as it runs returns what \<open>process_user_request\<close> computes from the store
  and the next number of the generator, and moves the generator on exactly when it has
  drawn a scenario.
\<close>

lemma process_user_request_st_eq:
  "process_user_request_st request a =
     (process_user_request (agent a) (next_draw a) request,
      case find (\<lambda>m. sublist (lower m) (lower request)) (keys (failure_modes (agent a))) of
        None \<Rightarrow> a
      | Some m \<Rightarrow> if scenarios_of (agent a) m = [] then a else advance a)"
proof (cases "find (\<lambda>m. sublist (lower m) (lower request)) (keys (failure_modes (agent a)))")
  case None
  then have sm: "scan_modes (agent a) (next_draw a) (lower request) (keys (failure_modes (agent a))) = None"
    by (simp add: scan_modes_find)
  show ?thesis
    unfolding process_user_request_st_def process_user_request_def Let_def
      scan_modes_st_eq scan_categories_st_eq None sm
      generate_all_failure_modes_response_st_eq generate_all_categories_response_st_eq
    by (simp split: sum.splits option.splits)
next
  case (Some m)
  then have sm: "scan_modes (agent a) (next_draw a) (lower request) (keys (failure_modes (agent a)))
      = Some (generate_failure_mode_response (agent a) (next_draw a) m)"
    by (simp add: scan_modes_find)
  show ?thesis
    unfolding process_user_request_st_def process_user_request_def Let_def
      scan_modes_st_eq Some sm
    by simp
qed

text \<open>
  Claim C8. Routing writes nothing to the interaction log and does not modify the
  taxonomy store: after \<open>process_user_request\<close> has run inside the application, with
  a response or with an exception, the agent (failure modes and category index), the
  database (queries, views and feedback) and the widgets are what they were, and the
  response does not depend on the database. The one piece of state the router may
  change is the generator of the \<open>random\<close> module, which it moves on by at most one
  number. The log entry that goes with a request is written by the caller,
  \<open>_process_query\<close>, before it calls the router: after \<open>_process_query\<close> the store is
  unchanged, the database is the one that \<open>log_user_query\<close> returned for the stripped
  request (or the old one when the request is blank), and the view and feedback tables
  are unchanged.
\<close>

theorem route_leaves_state_unchanged:
  "agent (snd (process_user_request_st request a)) = agent a
   \<and> db (snd (process_user_request_st request a)) = db a
   \<and> query_entry (snd (process_user_request_st request a)) = query_entry a
   \<and> response_text (snd (process_user_request_st request a)) = response_text a
   \<and> tape (rng (snd (process_user_request_st request a))) = tape (rng a)
   \<and> (pos (rng (snd (process_user_request_st request a))) = pos (rng a)
        \<or> pos (rng (snd (process_user_request_st request a))) = Suc (pos (rng a)))
   \<and> fst (process_user_request_st request (a\<lparr>db := d\<rparr>)) = fst (process_user_request_st request a)
   \<and> agent (snd (process_query strip a now)) = agent a
   \<and> db (snd (process_query strip a now)) =
       (if strip (query_entry a) = [] then db a
        else snd (log_user_query (db a) now (strip (query_entry a))))
   \<and> viewed_failure_modes (db (snd (process_query strip a now))) = viewed_failure_modes (db a)
   \<and> solution_feedback (db (snd (process_query strip a now))) = solution_feedback (db a)"
proof -
  have frame: "agent (snd (process_user_request_st request a)) = agent a
      \<and> db (snd (process_user_request_st request a)) = db a
      \<and> query_entry (snd (process_user_request_st request a)) = query_entry a
      \<and> response_text (snd (process_user_request_st request a)) = response_text a
      \<and> tape (rng (snd (process_user_request_st request a))) = tape (rng a)
      \<and> (pos (rng (snd (process_user_request_st request a))) = pos (rng a)
           \<or> pos (rng (snd (process_user_request_st request a))) = Suc (pos (rng a)))"
    for request a
    by (simp add: process_user_request_st_eq advance_fields split: option.splits)
  have indep: "fst (process_user_request_st request (a\<lparr>db := d\<rparr>))
      = fst (process_user_request_st request a)"
    by (simp add: process_user_request_st_eq next_draw_def)
  have caller: "agent (snd (process_query strip a now)) = agent a
      \<and> db (snd (process_query strip a now)) =
          (if strip (query_entry a) = [] then db a
           else snd (log_user_query (db a) now (strip (query_entry a))))"
    using frame[of "strip (query_entry a)"
        "a\<lparr>db := snd (log_user_query (db a) now (strip (query_entry a)))\<rparr>"]
    by (simp add: process_query_def Let_def split_def split: sum.splits)
  then have tables: "viewed_failure_modes (db (snd (process_query strip a now))) = viewed_failure_modes (db a)
      \<and> solution_feedback (db (snd (process_query strip a now))) = solution_feedback (db a)"
    by (simp add: log_user_query_def Let_def)
  from frame[of request a] indep caller tables show ?thesis by simp
qed








section \<open>The interaction log\<close>

lemma foldr_max_ge: "x \<in> set ids \<Longrightarrow> x \<le> foldr max ids (0::nat)"
  by (induction ids) (auto simp: max_def)

lemma next_rowid_fresh: "x \<in> set ids \<Longrightarrow> x < next_rowid ids"
  by (simp add: next_rowid_def foldr_max_ge less_Suc_eq_le)

lemma ids_ascending_log:
  "ids_ascending (user_queries d) \<Longrightarrow> ids_ascending (user_queries (snd (log_user_query d now q)))"
  by (auto simp: ids_ascending_def log_user_query_def Let_def sorted_wrt_append
      intro: next_rowid_fresh)

lemma log_queries_rows:
  "ids_ascending (user_queries d) \<Longrightarrow>
   ids_ascending (user_queries (log_queries d calls)) \<and>
   map q_query (user_queries (log_queries d calls)) = map q_query (user_queries d) @ map snd calls \<and>
   map q_timestamp (user_queries (log_queries d calls)) = map q_timestamp (user_queries d) @ map fst calls"
proof (induction calls arbitrary: d)
  case Nil
  then show ?case by (simp add: log_queries_def)
next
  case (Cons c calls)
  have "ids_ascending (user_queries (snd (log_user_query d (fst c) (snd c))))"
    using Cons.prems by (rule ids_ascending_log)
  from Cons.IH[OF this] show ?case
    by (simp add: log_queries_def log_user_query_def Let_def)
qed

text \<open>The sort is stable: rows with equal keys keep the order of the table.\<close>

lemma insort_desc_stable:
  fixes f :: "'a \<Rightarrow> int" and g :: "'a \<Rightarrow> nat"
  assumes "sorted_wrt (\<lambda>a b. f a < f b \<or> f a = f b \<and> g a < g b) ys"
    and "\<forall>y\<in>set ys. g x < g y"
  shows "sorted_wrt (\<lambda>a b. f a < f b \<or> f a = f b \<and> g a < g b) (insort_key f x ys)"
  using assms by (induction ys) (auto simp: set_insort_key)

lemma sort_key_stable_ids:
  fixes f :: "'a \<Rightarrow> int" and g :: "'a \<Rightarrow> nat"
  assumes "sorted_wrt (\<lambda>a b. g a < g b) xs"
  shows "sorted_wrt (\<lambda>a b. f a < f b \<or> f a = f b \<and> g a < g b) (sort_key f xs)"
  using assms by (induction xs) (auto intro: insort_desc_stable)

lemma order_by_desc_ties:
  fixes g :: "'a \<Rightarrow> nat"
  shows "sorted_wrt (\<lambda>a b. g a < g b) rows \<Longrightarrow>
   sorted_wrt (\<lambda>a b. key b < key a \<or> key a = key b \<and> g a < g b) (order_by_desc key rows)"
  using sort_key_stable_ids[of g rows "\<lambda>row. - int (key row)"]
  by (simp add: order_by_desc_def)

lemma order_by_desc_sorted:
  "sorted_wrt (\<lambda>a b. key b \<le> key a) (order_by_desc key rows)"
proof -
  have "sorted (map (\<lambda>row. - int (key row)) (sort_key (\<lambda>row. - int (key row)) rows))"
    by (rule sorted_sort_key)
  then show ?thesis
    by (simp add: order_by_desc_def sorted_map)
qed

lemma order_by_desc_mset: "mset (order_by_desc key rows) = mset rows"
  by (simp add: order_by_desc_def)

lemma order_by_desc_set: "set (order_by_desc key rows) = set rows"
  by (simp add: order_by_desc_def)

lemma order_by_desc_length: "length (order_by_desc key rows) = length rows"
  by (simp add: order_by_desc_def)

lemma order_by_desc_distinct_map:
  "distinct (map h (order_by_desc key rows)) = distinct (map h rows)"
proof -
  have "mset (map h (order_by_desc key rows)) = mset (map h rows)"
    by (simp add: order_by_desc_def)
  then show ?thesis by (metis distinct_count_atmost_1 set_mset_mset)
qed

lemma sql_limit_split: "\<exists>rest. rows = sql_limit n rows @ rest"
proof (cases "n < 0")
  case True
  then have "rows = sql_limit n rows @ []" by (simp add: sql_limit_def)
  then show ?thesis ..
next
  case False
  then have "rows = sql_limit n rows @ drop (nat n) rows" by (simp add: sql_limit_def)
  then show ?thesis ..
qed

lemma sql_limit_sorted_wrt: "sorted_wrt P rows \<Longrightarrow> sorted_wrt P (sql_limit n rows)"
  by (simp add: sql_limit_def sorted_wrt_take)

lemma sql_limit_length: "0 \<le> n \<Longrightarrow> length (sql_limit n rows) = min (nat n) (length rows)"
  by (simp add: sql_limit_def)

text \<open>
  Claim C3, as the specification states it: \<open>get_recent_queries\<close> returns at most
  \<open>limit\<close> entries, newest first by timestamp, entries with the same timestamp in
  descending order of id. The query is \<open>ORDER BY timestamp DESC LIMIT ?\<close> and names no
  second sort key, and the timestamp has a resolution of one second: two queries logged
  within the same second come back in table order, the older one first, and with
  \<open>limit = 1\<close> the older one is the entry returned.
\<close>

theorem recent_queries_tie_counterexample:
  "map q_id (get_recent_queries (log_queries create_tables [(5, ''a''), (5, ''b'')]) 2) = [1, 2]
   \<and> map q_timestamp (get_recent_queries (log_queries create_tables [(5, ''a''), (5, ''b'')]) 2)
       = [5, 5]
   \<and> map q_query (get_recent_queries (log_queries create_tables [(5, ''a''), (5, ''b'')]) 1)
       = [''a'']"
  by code_simp

text \<open>
  Claim C3, amended. After any sequence of \<open>log_user_query\<close> calls on a fresh database,
  \<open>get_recent_queries\<close> with a limit that is not negative returns \<open>min limit n\<close> of
  the \<open>n\<close> entries; the entries are ordered newest first by timestamp, entries with the
  same timestamp in ascending order of id (insertion order); no entry left out is newer
  than an entry returned; the entries carry the texts and clock readings of the calls;
  and after one \<open>log_user_query\<close> with the text \<open>foo\<close> on a fresh database,
  \<open>get_recent_queries\<close> with limit 1 returns exactly one entry, with the text \<open>foo\<close>.
\<close>

theorem recent_queries_newest_first:
  "(0 \<le> limit \<longrightarrow>
      length (get_recent_queries (log_queries create_tables calls) limit) = min (nat limit) (length calls))
   \<and> sorted_wrt (\<lambda>a b. q_timestamp b < q_timestamp a
                     \<or> q_timestamp a = q_timestamp b \<and> q_id a < q_id b)
        (get_recent_queries (log_queries create_tables calls) limit)
   \<and> (\<exists>rest. mset (get_recent_queries (log_queries create_tables calls) limit @ rest)
                = mset (user_queries (log_queries create_tables calls))
          \<and> (\<forall>x\<in>set (get_recent_queries (log_queries create_tables calls) limit).
               \<forall>y\<in>set rest. q_timestamp y \<le> q_timestamp x))
   \<and> map q_query (user_queries (log_queries create_tables calls)) = map snd calls
   \<and> map q_timestamp (user_queries (log_queries create_tables calls)) = map fst calls
   \<and> map q_query (get_recent_queries (snd (log_user_query create_tables now ''foo'')) 1) = [''foo'']"
proof -
  let ?db = "log_queries create_tables calls"
  have asc0: "ids_ascending (user_queries create_tables)"
    by (simp add: ids_ascending_def create_tables_def)
  note rows = log_queries_rows[OF asc0, of calls]
  have len: "length (user_queries ?db) = length calls"
  proof -
    have "length (map q_query (user_queries ?db)) = length (map snd calls)"
      using rows by (simp add: create_tables_def)
    then show ?thesis by simp
  qed
  have 1: "0 \<le> limit \<longrightarrow> length (get_recent_queries ?db limit) = min (nat limit) (length calls)"
    by (simp add: get_recent_queries_def sql_limit_length order_by_desc_length len)
  have 2: "sorted_wrt (\<lambda>a b. q_timestamp b < q_timestamp a
                     \<or> q_timestamp a = q_timestamp b \<and> q_id a < q_id b)
        (get_recent_queries ?db limit)"
    unfolding get_recent_queries_def
    using rows by (intro sql_limit_sorted_wrt order_by_desc_ties) (simp add: ids_ascending_def)
  obtain rest where rest: "order_by_desc q_timestamp (user_queries ?db) = get_recent_queries ?db limit @ rest"
    unfolding get_recent_queries_def using sql_limit_split by blast
  have "sorted_wrt (\<lambda>a b. q_timestamp b \<le> q_timestamp a) (get_recent_queries ?db limit @ rest)"
    using order_by_desc_sorted[of q_timestamp "user_queries ?db"] rest by simp
  then have "\<forall>x\<in>set (get_recent_queries ?db limit). \<forall>y\<in>set rest. q_timestamp y \<le> q_timestamp x"
    by (simp add: sorted_wrt_append)
  moreover have "mset (get_recent_queries ?db limit @ rest) = mset (user_queries ?db)"
    using rest order_by_desc_mset[of q_timestamp "user_queries ?db"] by simp
  ultimately have 3: "\<exists>rest. mset (get_recent_queries ?db limit @ rest) = mset (user_queries ?db)
          \<and> (\<forall>x\<in>set (get_recent_queries ?db limit). \<forall>y\<in>set rest. q_timestamp y \<le> q_timestamp x)"
    by blast
  have 4: "map q_query (user_queries ?db) = map snd calls"
    "map q_timestamp (user_queries ?db) = map fst calls"
    using rows by (simp_all add: create_tables_def)
  have 5: "map q_query (get_recent_queries (snd (log_user_query create_tables now ''foo'')) 1) = [''foo'']"
    by (simp add: get_recent_queries_def log_user_query_def create_tables_def sql_limit_def
        order_by_desc_def Let_def)
  from 1 2 3 4 5 show ?thesis by blast
qed

theorem recent_queries_newest_first_witness:
  "(0::int) \<le> 1 \<and>
   length (get_recent_queries (log_queries create_tables [(5, ''a''), (7, ''b'')]) 1)
     = min (nat 1) (length [(5::nat, ''a''), (7, ''b'')])"
proof -
  have h: "(0::int) \<le> 1" by simp
  have "0 \<le> (1::int) \<longrightarrow>
      length (get_recent_queries (log_queries create_tables [(5, ''a''), (7, ''b'')]) 1)
        = min (nat 1) (length [(5::nat, ''a''), (7, ''b'')])"
    by (rule conjunct1[OF recent_queries_newest_first])
  then have "length (get_recent_queries (log_queries create_tables [(5, ''a''), (7, ''b'')]) 1)
        = min (nat 1) (length [(5::nat, ''a''), (7, ''b'')])"
    using h by (rule mp)
  with h show ?thesis by (rule conjI)
qed

lemma group_keys_set: "set (group_keys ks) = set ks"
  by (simp add: group_keys_def)

lemma group_keys_distinct: "distinct (group_keys ks)"
  by (simp add: group_keys_def)

lemma log_views_names:
  "map v_failure_mode (viewed_failure_modes (log_views d calls)) =
     map v_failure_mode (viewed_failure_modes d) @ map snd calls"
  by (induction calls arbitrary: d)
     (simp_all add: log_views_def log_viewed_failure_mode_def Let_def)

lemma count_rows: "length (filter (\<lambda>row. h row = k) rows) = count_list (map h rows) k"
  by (induction rows) simp_all

lemma most_viewed_three_and_one:
  "X \<noteq> Y \<Longrightarrow>
   get_most_viewed_failure_modes (log_views create_tables [(t1, X), (t2, X), (t3, X), (t4, Y)]) 5
     = [\<lparr>failure_mode = X, view_count = 3\<rparr>, \<lparr>failure_mode = Y, view_count = 1\<rparr>]"
  by (cases "X \<le> Y")
     (simp_all add: get_most_viewed_failure_modes_def log_views_def log_viewed_failure_mode_def
      create_tables_def Let_def group_keys_def order_by_desc_def sql_limit_def)

lemma most_viewed_three_and_one_cut:
  "X \<noteq> Y \<Longrightarrow>
   get_most_viewed_failure_modes (log_views create_tables [(t1, X), (t2, X), (t3, X), (t4, Y)]) 1
     = [\<lparr>failure_mode = X, view_count = 3\<rparr>]"
  by (cases "X \<le> Y")
     (simp_all add: get_most_viewed_failure_modes_def log_views_def log_viewed_failure_mode_def
      create_tables_def Let_def group_keys_def order_by_desc_def sql_limit_def)

text \<open>
  Claim C4, as the specification states it: the rows of \<open>get_most_viewed_failure_modes\<close>
  are truncated to \<open>limit\<close>. The limit is handed to \<open>LIMIT ?\<close> as it comes, and SQLite
  reads a negative limit as no limit: with limit \<open>-1\<close> two names viewed once each come
  back as two rows.
\<close>

theorem most_viewed_negative_limit_counterexample:
  "get_most_viewed_failure_modes (log_views create_tables [(1, ''X''), (2, ''Y'')]) (- 1)
     = [\<lparr>failure_mode = ''Y'', view_count = 1\<rparr>, \<lparr>failure_mode = ''X'', view_count = 1\<rparr>]"
  by code_simp

text \<open>
  Claim C4, amended. After any sequence of \<open>log_viewed_failure_mode\<close> calls on a fresh
  database there is a list with one row per distinct name viewed, each with the number of
  views of that name, in descending order of that number, such that
  \<open>get_most_viewed_failure_modes\<close> returns its first \<open>limit\<close> rows when the limit is
  not negative, and the whole list when it is negative; with a limit that is not negative
  the result has \<open>min limit k\<close> rows for \<open>k\<close> distinct names. After three views of
  \<open>X\<close> and one view of another name \<open>Y\<close>, the result for limit 5 is \<open>X\<close> with
  count 3 followed by \<open>Y\<close> with count 1, and the result for limit 1 is \<open>X\<close> with
  count 3 alone.
\<close>

theorem most_viewed_counts:
  "(\<exists>full.
      distinct (map failure_mode full)
      \<and> set (map failure_mode full) = set (map snd calls)
      \<and> (\<forall>row\<in>set full. view_count row = count_list (map snd calls) (failure_mode row))
      \<and> sorted_wrt (\<lambda>a b. view_count b \<le> view_count a) full
      \<and> (0 \<le> limit \<longrightarrow>
           get_most_viewed_failure_modes (log_views create_tables calls) limit
             = take (nat limit) full)
      \<and> (limit < 0 \<longrightarrow>
           get_most_viewed_failure_modes (log_views create_tables calls) limit = full))
   \<and> (0 \<le> limit \<longrightarrow>
        length (get_most_viewed_failure_modes (log_views create_tables calls) limit)
          = min (nat limit) (card (set (map snd calls))))
   \<and> (X \<noteq> Y \<longrightarrow>
        get_most_viewed_failure_modes
          (log_views create_tables [(t1, X), (t2, X), (t3, X), (t4, Y)]) 5
        = [\<lparr>failure_mode = X, view_count = 3\<rparr>, \<lparr>failure_mode = Y, view_count = 1\<rparr>])
   \<and> (X \<noteq> Y \<longrightarrow>
        get_most_viewed_failure_modes
          (log_views create_tables [(t1, X), (t2, X), (t3, X), (t4, Y)]) 1
        = [\<lparr>failure_mode = X, view_count = 3\<rparr>])"
proof -
  let ?rows = "viewed_failure_modes (log_views create_tables calls)"
  let ?groups = "map (\<lambda>k. \<lparr>failure_mode = k,
            view_count = length (filter (\<lambda>row. v_failure_mode row = k) ?rows)\<rparr>)
         (rev (group_keys (map v_failure_mode ?rows)))"
  let ?full = "order_by_desc view_count ?groups"
  let ?res = "get_most_viewed_failure_modes (log_views create_tables calls) limit"
  have names: "map v_failure_mode ?rows = map snd calls"
    using log_views_names[of create_tables calls] by (simp add: create_tables_def)
  have keys: "map failure_mode ?groups = rev (group_keys (map snd calls))"
    by (simp add: names o_def)
  have res: "?res = sql_limit limit ?full"
    by (simp add: get_most_viewed_failure_modes_def Let_def)
  have 1: "0 \<le> limit \<longrightarrow> ?res = take (nat limit) ?full"
    unfolding res by (simp add: sql_limit_def)
  have 2: "limit < 0 \<longrightarrow> ?res = ?full"
    unfolding res by (simp add: sql_limit_def)
  have 3: "distinct (map failure_mode ?full)"
    unfolding order_by_desc_distinct_map keys by (simp add: group_keys_distinct)
  have "set (map failure_mode ?full) = set (map failure_mode ?groups)"
    by (simp only: set_map order_by_desc_set)
  also have "\<dots> = set (map snd calls)" unfolding keys by (simp add: group_keys_set)
  finally have 4: "set (map failure_mode ?full) = set (map snd calls)" .
  have 5: "\<forall>row\<in>set ?full. view_count row = count_list (map snd calls) (failure_mode row)"
    using names by (auto simp: count_rows order_by_desc_set)
  have 6: "sorted_wrt (\<lambda>a b. view_count b \<le> view_count a) ?full"
    by (rule order_by_desc_sorted)
  have "length ?full = length (map failure_mode ?full)"
    by simp
  also have "\<dots> = card (set (map failure_mode ?full))"
    using 3 by (rule distinct_card[symmetric])
  finally have len: "length ?full = card (set (map snd calls))"
    unfolding 4 .
  have 7: "0 \<le> limit \<longrightarrow> length ?res = min (nat limit) (card (set (map snd calls)))"
    using 1 len by (simp add: min.commute)
  from 1 2 3 4 5 6 have "\<exists>full.
      distinct (map failure_mode full)
      \<and> set (map failure_mode full) = set (map snd calls)
      \<and> (\<forall>row\<in>set full. view_count row = count_list (map snd calls) (failure_mode row))
      \<and> sorted_wrt (\<lambda>a b. view_count b \<le> view_count a) full
      \<and> (0 \<le> limit \<longrightarrow> ?res = take (nat limit) full)
      \<and> (limit < 0 \<longrightarrow> ?res = full)"
    by blast
  then show ?thesis
    using 7 most_viewed_three_and_one[of X Y t1 t2 t3 t4]
      most_viewed_three_and_one_cut[of X Y t1 t2 t3 t4]
    by blast
qed

theorem most_viewed_counts_witness:
  "(0::int) \<le> 1 \<and> ''X'' \<noteq> ''Y''
   \<and> length (get_most_viewed_failure_modes
        (log_views create_tables [(1, ''X''), (2, ''X''), (3, ''X''), (4, ''Y'')]) 1)
      = min (nat 1) (card (set (map snd [(1::nat, ''X''), (2, ''X''), (3, ''X''), (4, ''Y'')])))
   \<and> get_most_viewed_failure_modes
        (log_views create_tables [(1, ''X''), (2, ''X''), (3, ''X''), (4, ''Y'')]) 1
      = [\<lparr>failure_mode = ''X'', view_count = 3\<rparr>]"
proof -
  have h: "(0::int) \<le> 1" by simp
  have d: "''X'' \<noteq> ''Y''" by simp
  note t = most_viewed_counts[where limit = 1 and X = "''X''" and Y = "''Y''"
      and calls = "[(1, ''X''), (2, ''X''), (3, ''X''), (4, ''Y'')]"
      and ?t1.0 = 1 and ?t2.0 = 2 and ?t3.0 = 3 and ?t4.0 = 4]
  from t have "0 \<le> (1::int) \<longrightarrow>
      length (get_most_viewed_failure_modes
        (log_views create_tables [(1, ''X''), (2, ''X''), (3, ''X''), (4, ''Y'')]) 1)
      = min (nat 1) (card (set (map snd [(1::nat, ''X''), (2, ''X''), (3, ''X''), (4, ''Y'')])))"
    by (rule conjunct1[OF conjunct2])
  then have a: "length (get_most_viewed_failure_modes
        (log_views create_tables [(1, ''X''), (2, ''X''), (3, ''X''), (4, ''Y'')]) 1)
      = min (nat 1) (card (set (map snd [(1::nat, ''X''), (2, ''X''), (3, ''X''), (4, ''Y'')])))"
    using h by (rule mp)
  from t have "''X'' \<noteq> ''Y'' \<longrightarrow>
      get_most_viewed_failure_modes
        (log_views create_tables [(1, ''X''), (2, ''X''), (3, ''X''), (4, ''Y'')]) 1
      = [\<lparr>failure_mode = ''X'', view_count = 3\<rparr>]"
    by (rule conjunct2[OF conjunct2[OF conjunct2]])
  then have b: "get_most_viewed_failure_modes
        (log_views create_tables [(1, ''X''), (2, ''X''), (3, ''X''), (4, ''Y'')]) 1
      = [\<lparr>failure_mode = ''X'', view_count = 3\<rparr>]"
    using d by (rule mp)
  from h d a b show ?thesis by (intro conjI)
qed

lemma map_of_tabulate:
  "map_of (map (\<lambda>k. (k, f k)) ks) k = (if k \<in> set ks then Some (f k) else None)"
  by (induction ks) auto

lemma non_null_filter:
  "non_null (map h (filter (\<lambda>row. h row \<noteq> None) rows)) = non_null (map h rows)"
  by (induction rows) (auto simp: non_null_def)

lemma non_null_empty: "non_null vs = [] \<longleftrightarrow> (\<forall>v\<in>set vs. v = None)"
  by (induction vs) (auto simp: non_null_def split: option.splits)

lemma feedback_stats_rows:
  fixes db :: database
  defines "rows \<equiv> solution_feedback db"
  shows "map_of (avg_ratings_by_type (get_solution_feedback_stats db)) st =
      (let rs = non_null (map f_rating (filter (\<lambda>row. f_solution_type row = st) rows))
       in if rs = [] then None else Some (Some (real_of_int (sum_list rs) / real (length rs))))"
    and "map_of (feedback_count_by_mode (get_solution_feedback_stats db)) m =
      (let n = length (filter (\<lambda>row. f_failure_mode row = m) rows)
       in if n = 0 then None else Some n)"
proof -
  let ?rated = "filter (\<lambda>row. f_rating row \<noteq> None) rows"
  let ?rs = "non_null (map f_rating (filter (\<lambda>row. f_solution_type row = st) rows))"
  have swap: "filter (\<lambda>row. f_solution_type row = st) ?rated
      = filter (\<lambda>row. f_rating row \<noteq> None) (filter (\<lambda>row. f_solution_type row = st) rows)"
    by (simp add: conj_commute)
  have rs: "non_null (map f_rating (filter (\<lambda>row. f_solution_type row = st) ?rated)) = ?rs"
    unfolding swap by (rule non_null_filter)
  have key: "st \<in> set (group_keys (map f_solution_type ?rated)) \<longleftrightarrow> ?rs \<noteq> []"
    by (auto simp: non_null_empty group_keys_set)
  have A: "avg_ratings_by_type (get_solution_feedback_stats db) =
      map (\<lambda>k. (k, avg (map f_rating (filter (\<lambda>row. f_solution_type row = k) ?rated))))
        (group_keys (map f_solution_type ?rated))"
    by (simp add: get_solution_feedback_stats_def Let_def rows_def)
  have "map_of (avg_ratings_by_type (get_solution_feedback_stats db)) st =
      (if st \<in> set (group_keys (map f_solution_type ?rated))
       then Some (avg (map f_rating (filter (\<lambda>row. f_solution_type row = st) ?rated))) else None)"
    unfolding A by (rule map_of_tabulate)
  also have "\<dots> = (if ?rs = [] then None
       else Some (Some (real_of_int (sum_list ?rs) / real (length ?rs))))"
    unfolding key avg_def rs by (simp add: Let_def)
  finally show "map_of (avg_ratings_by_type (get_solution_feedback_stats db)) st =
      (let rs = ?rs
       in if rs = [] then None else Some (Some (real_of_int (sum_list rs) / real (length rs))))"
    by (simp add: Let_def)
  have key2: "m \<in> set (group_keys (map f_failure_mode rows)) \<longleftrightarrow>
      length (filter (\<lambda>row. f_failure_mode row = m) rows) \<noteq> 0"
    by (auto simp: filter_empty_conv group_keys_set)
  have B: "feedback_count_by_mode (get_solution_feedback_stats db) =
      map (\<lambda>k. (k, length (filter (\<lambda>row. f_failure_mode row = k) rows)))
        (group_keys (map f_failure_mode rows))"
    by (simp add: get_solution_feedback_stats_def Let_def rows_def)
  have "map_of (feedback_count_by_mode (get_solution_feedback_stats db)) m =
      (if m \<in> set (group_keys (map f_failure_mode rows))
       then Some (length (filter (\<lambda>row. f_failure_mode row = m) rows)) else None)"
    unfolding B by (rule map_of_tabulate)
  then show "map_of (feedback_count_by_mode (get_solution_feedback_stats db)) m =
      (let n = length (filter (\<lambda>row. f_failure_mode row = m) rows)
       in if n = 0 then None else Some n)"
    unfolding key2 by (simp add: Let_def)
qed

lemma log_feedbacks_entries:
  "map entry (solution_feedback (log_feedbacks d calls)) =
     map entry (solution_feedback d) @ map call_entry calls"
  by (induction calls arbitrary: d)
     (simp_all add: log_feedbacks_def log_solution_feedback_def Let_def entry_def call_entry_def)

lemma map_filter_entries:
  assumes "map p xs = map q ys"
  shows "map (h \<circ> p) (filter (Q \<circ> p) xs) = map (h \<circ> q) (filter (Q \<circ> q) ys)"
proof -
  have "map (h \<circ> p) (filter (Q \<circ> p) xs) = map h (filter Q (map p xs))"
    by (simp add: filter_map)
  also have "\<dots> = map h (filter Q (map q ys))" using assms by simp
  also have "\<dots> = map (h \<circ> q) (filter (Q \<circ> q) ys)" by (simp add: filter_map)
  finally show ?thesis .
qed

lemma feedback_stats_calls:
  "map_of (avg_ratings_by_type (get_solution_feedback_stats (log_feedbacks create_tables calls))) st =
      (let rs = non_null (map c_rating (filter (\<lambda>c. c_solution_type c = st) calls))
       in if rs = [] then None else Some (Some (real_of_int (sum_list rs) / real (length rs))))"
  "map_of (feedback_count_by_mode (get_solution_feedback_stats (log_feedbacks create_tables calls))) m =
      (let n = length (filter (\<lambda>c. c_failure_mode c = m) calls)
       in if n = 0 then None else Some n)"
proof -
  let ?rows = "solution_feedback (log_feedbacks create_tables calls)"
  have e: "map entry ?rows = map call_entry calls"
    using log_feedbacks_entries[of create_tables calls] by (simp add: create_tables_def)
  have "map ((\<lambda>e. snd (snd e)) \<circ> entry) (filter ((\<lambda>e. fst (snd e) = st) \<circ> entry) ?rows)
      = map ((\<lambda>e. snd (snd e)) \<circ> call_entry) (filter ((\<lambda>e. fst (snd e) = st) \<circ> call_entry) calls)"
    using e by (rule map_filter_entries)
  then have 1: "map f_rating (filter (\<lambda>row. f_solution_type row = st) ?rows)
      = map c_rating (filter (\<lambda>c. c_solution_type c = st) calls)"
    by (simp add: o_def entry_def call_entry_def)
  have "map ((\<lambda>e. fst e) \<circ> entry) (filter ((\<lambda>e. fst e = m) \<circ> entry) ?rows)
      = map ((\<lambda>e. fst e) \<circ> call_entry) (filter ((\<lambda>e. fst e = m) \<circ> call_entry) calls)"
    using e by (rule map_filter_entries)
  then have "length (map f_failure_mode (filter (\<lambda>row. f_failure_mode row = m) ?rows))
      = length (map c_failure_mode (filter (\<lambda>c. c_failure_mode c = m) calls))"
    by (simp add: o_def entry_def call_entry_def)
  then have 2: "length (filter (\<lambda>row. f_failure_mode row = m) ?rows)
      = length (filter (\<lambda>c. c_failure_mode c = m) calls)"
    by simp
  show "map_of (avg_ratings_by_type (get_solution_feedback_stats (log_feedbacks create_tables calls))) st =
      (let rs = non_null (map c_rating (filter (\<lambda>c. c_solution_type c = st) calls))
       in if rs = [] then None else Some (Some (real_of_int (sum_list rs) / real (length rs))))"
    unfolding feedback_stats_rows 1 by (rule refl)
  show "map_of (feedback_count_by_mode (get_solution_feedback_stats (log_feedbacks create_tables calls))) m =
      (let n = length (filter (\<lambda>c. c_failure_mode c = m) calls)
       in if n = 0 then None else Some n)"
    unfolding feedback_stats_rows 2 by (rule refl)
qed

text \<open>
  Claim C5. After any sequence of \<open>log_solution_feedback\<close> calls on a fresh database,
  \<open>avg_ratings_by_type\<close> maps a solution type to the mean of the ratings of its entries
  that have one, and has no key for a solution type without a rated entry;
  \<open>feedback_count_by_mode\<close> maps a failure mode to the number of all its entries, rated
  or not. With two tactical entries rated 4 and 2 and one structural entry without a
  rating, the tactical average is 3 and there is no structural key. (SQLite computes the
  mean in double precision; the model computes it in the reals.)
\<close>

theorem feedback_stats_means_and_counts:
  "map_of (avg_ratings_by_type (get_solution_feedback_stats (log_feedbacks create_tables calls))) st =
      (let rs = non_null (map c_rating (filter (\<lambda>c. c_solution_type c = st) calls))
       in if rs = [] then None else Some (Some (real_of_int (sum_list rs) / real (length rs))))
   \<and> map_of (feedback_count_by_mode (get_solution_feedback_stats (log_feedbacks create_tables calls))) m =
      (let n = length (filter (\<lambda>c. c_failure_mode c = m) calls)
       in if n = 0 then None else Some n)
   \<and> map_of (avg_ratings_by_type (get_solution_feedback_stats (log_feedbacks create_tables
        [\<lparr>c_now = t1, c_failure_mode = m1, c_solution_type = ''tactical'', c_solution_text = x1,
           c_rating = Some 4, c_comment = k1\<rparr>,
         \<lparr>c_now = t2, c_failure_mode = m2, c_solution_type = ''tactical'', c_solution_text = x2,
           c_rating = Some 2, c_comment = k2\<rparr>,
         \<lparr>c_now = t3, c_failure_mode = m3, c_solution_type = ''structural'', c_solution_text = x3,
           c_rating = None, c_comment = k3\<rparr>]))) ''tactical'' = Some (Some 3)
   \<and> map_of (avg_ratings_by_type (get_solution_feedback_stats (log_feedbacks create_tables
        [\<lparr>c_now = t1, c_failure_mode = m1, c_solution_type = ''tactical'', c_solution_text = x1,
           c_rating = Some 4, c_comment = k1\<rparr>,
         \<lparr>c_now = t2, c_failure_mode = m2, c_solution_type = ''tactical'', c_solution_text = x2,
           c_rating = Some 2, c_comment = k2\<rparr>,
         \<lparr>c_now = t3, c_failure_mode = m3, c_solution_type = ''structural'', c_solution_text = x3,
           c_rating = None, c_comment = k3\<rparr>]))) ''structural'' = None"
proof (intro conjI)
  show "map_of (avg_ratings_by_type (get_solution_feedback_stats (log_feedbacks create_tables calls))) st =
      (let rs = non_null (map c_rating (filter (\<lambda>c. c_solution_type c = st) calls))
       in if rs = [] then None else Some (Some (real_of_int (sum_list rs) / real (length rs))))"
    by (rule feedback_stats_calls(1))
  show "map_of (feedback_count_by_mode (get_solution_feedback_stats (log_feedbacks create_tables calls))) m =
      (let n = length (filter (\<lambda>c. c_failure_mode c = m) calls)
       in if n = 0 then None else Some n)"
    by (rule feedback_stats_calls(2))
qed (simp_all add: feedback_stats_calls(1) non_null_def)

end
